theory Spec2Isabelle
  imports Complex_Main "HOL-Library.AList" "HOL-Library.Sublist"
begin

section \<open>Per-transfer state machine (src/atoms/uploadStateMachine.ts)\<close>

text \<open>
  The string-literal union types \<open>UploadState\<close> and \<open>UploadEvent\<close> are closed
  enumerations. The state constructors carry the prefix \<open>S_\<close> because the record
  status type further down reuses seven of the nine literals.
\<close>

datatype UploadState =
    S_idle | S_queued | S_reserving | S_ready | S_uploading
  | S_success | S_error | S_canceled | S_retrying

datatype UploadEvent =
    ADD_FILE | START_RESERVE | RESERVE_SUCCESS | RESERVE_ERROR | START_UPLOAD
  | UPLOAD_PROGRESS | UPLOAD_SUCCESS | UPLOAD_ERROR | CANCEL | RETRY | REMOVE

datatype Method = PUT | POST

text \<open>
  A browser \<open>File\<close>: only the four attributes the program reads. The byte content is
  never inspected by the code under study; \<open>new File([], name, opts)\<close> has size 0.
\<close>

record File =
  file_name :: string
  file_size :: int
  file_type :: string
  file_lastModified :: int

text \<open>An \<open>AbortController\<close> is an opaque handle; aborting it is recorded in a log.\<close>

type_synonym AbortController = nat

record UploadContext =
  ctx_id :: string
  ctx_file :: File
  ctx_fileSize :: int
  ctx_progress :: int
  ctx_error :: "string option"
  ctx_remoteId :: "string option"
  ctx_uploadUrl :: "string option"
  ctx_method :: "Method option"
  ctx_controller :: "AbortController option"

text \<open>
  \<open>Partial<UploadContext>\<close>: every key may be absent (\<open>None\<close>). For the optional
  fields of the context a present key may still hold \<open>undefined\<close>, which the object
  spread copies: \<open>Some None\<close>.
\<close>

record ContextPatch =
  p_id :: "string option"
  p_file :: "File option"
  p_fileSize :: "int option"
  p_progress :: "int option"
  p_error :: "string option option"
  p_remoteId :: "string option option"
  p_uploadUrl :: "string option option"
  p_method :: "Method option option"
  p_controller :: "AbortController option option"

definition no_patch :: ContextPatch where
  "no_patch = \<lparr>p_id = None, p_file = None, p_fileSize = None, p_progress = None,
     p_error = None, p_remoteId = None, p_uploadUrl = None, p_method = None,
     p_controller = None\<rparr>"

definition override :: "'a \<Rightarrow> 'a option \<Rightarrow> 'a" where
  "override old new = (case new of None \<Rightarrow> old | Some v \<Rightarrow> v)"

text \<open>The spread \<open>{ ...this.context, ...payload }\<close>.\<close>

definition merge_context :: "UploadContext \<Rightarrow> ContextPatch \<Rightarrow> UploadContext" where
  "merge_context c p =
     \<lparr>ctx_id = override (ctx_id c) (p_id p),
      ctx_file = override (ctx_file c) (p_file p),
      ctx_fileSize = override (ctx_fileSize c) (p_fileSize p),
      ctx_progress = override (ctx_progress c) (p_progress p),
      ctx_error = override (ctx_error c) (p_error p),
      ctx_remoteId = override (ctx_remoteId c) (p_remoteId p),
      ctx_uploadUrl = override (ctx_uploadUrl c) (p_uploadUrl p),
      ctx_method = override (ctx_method c) (p_method p),
      ctx_controller = override (ctx_controller c) (p_controller p)\<rparr>"

text \<open>\<open>STATE_TRANSITIONS\<close>: one object literal per state, in the source's key order.\<close>

fun STATE_TRANSITIONS :: "UploadState \<Rightarrow> (UploadEvent \<times> UploadState) list" where
  "STATE_TRANSITIONS S_idle = [(ADD_FILE, S_queued)]"
| "STATE_TRANSITIONS S_queued =
     [(START_RESERVE, S_reserving), (REMOVE, S_idle), (CANCEL, S_canceled)]"
| "STATE_TRANSITIONS S_reserving =
     [(RESERVE_SUCCESS, S_ready), (RESERVE_ERROR, S_error), (CANCEL, S_canceled),
      (REMOVE, S_idle)]"
| "STATE_TRANSITIONS S_ready =
     [(START_UPLOAD, S_uploading), (CANCEL, S_canceled), (REMOVE, S_idle)]"
| "STATE_TRANSITIONS S_uploading =
     [(UPLOAD_PROGRESS, S_uploading), (UPLOAD_SUCCESS, S_success),
      (UPLOAD_ERROR, S_error), (CANCEL, S_canceled)]"
| "STATE_TRANSITIONS S_success = [(REMOVE, S_idle)]"
| "STATE_TRANSITIONS S_error = [(RETRY, S_retrying), (REMOVE, S_idle)]"
| "STATE_TRANSITIONS S_canceled = [(RETRY, S_retrying), (REMOVE, S_idle)]"
| "STATE_TRANSITIONS S_retrying =
     [(START_RESERVE, S_reserving), (RESERVE_SUCCESS, S_ready),
      (START_UPLOAD, S_uploading), (UPLOAD_SUCCESS, S_success),
      (UPLOAD_ERROR, S_error), (CANCEL, S_canceled), (REMOVE, S_idle)]"

text \<open>\<open>validTransitions && event in validTransitions\<close>; the table entry is never falsy.\<close>

definition canTransition :: "UploadState \<Rightarrow> UploadEvent \<Rightarrow> bool" where
  "canTransition currentState event =
     (map_of (STATE_TRANSITIONS currentState) event \<noteq> None)"

text \<open>
  \<open>validTransitions[event] || currentState\<close>: a state name is a non-empty string,
  hence truthy, so the fallback is only taken for a missing key.
\<close>

definition getNextState :: "UploadState \<Rightarrow> UploadEvent \<Rightarrow> UploadState" where
  "getNextState currentState event =
     (if \<not> canTransition currentState event then currentState
      else (case map_of (STATE_TRANSITIONS currentState) event of
              Some nextState \<Rightarrow> nextState
            | None \<Rightarrow> currentState))"

text \<open>
  The class \<open>UploadStateMachine\<close>: its private fields \<open>state\<close> and \<open>context\<close>.
  The listener array is left out: nothing in the program under study subscribes, and
  a listener receives the pair after the update without being able to change it.
\<close>

record UploadStateMachine =
  sm_state :: UploadState
  sm_context :: UploadContext

text \<open>
  \<open>send(event, payload?)\<close> returns the boolean result together with the updated
  machine. An omitted payload is \<open>None\<close>; any object, also the empty one, is truthy.
\<close>

definition send ::
  "UploadEvent \<Rightarrow> ContextPatch option \<Rightarrow> UploadStateMachine \<Rightarrow> bool \<times> UploadStateMachine" where
  "send event payload m =
     (let nextState = getNextState (sm_state m) event in
      if nextState = sm_state m \<and> payload = None then (False, m)
      else
        let m1 = (case payload of
                    None \<Rightarrow> m
                  | Some p \<Rightarrow> m\<lparr>sm_context := merge_context (sm_context m) p\<rparr>);
            m2 = (if nextState \<noteq> sm_state m1 then m1\<lparr>sm_state := nextState\<rparr> else m1)
        in (True, m2))"

definition createUploadStateMachine :: "File \<Rightarrow> string \<Rightarrow> UploadStateMachine" where
  "createUploadStateMachine file ident =
     \<lparr>sm_state = S_idle,
      sm_context = \<lparr>ctx_id = ident, ctx_file = file, ctx_fileSize = file_size file,
        ctx_progress = 0, ctx_error = None, ctx_remoteId = None, ctx_uploadUrl = None,
        ctx_method = None, ctx_controller = None\<rparr>\<rparr>"

text \<open>\<open>String.prototype.includes\<close>: the argument occurs as a contiguous substring.\<close>

fun str_includes :: "string \<Rightarrow> string \<Rightarrow> bool" where
  "str_includes [] sub = (sub = [])"
| "str_includes (c # cs) sub = (prefix sub (c # cs) \<or> str_includes cs sub)"

text \<open>\<open>context.error?.includes("page refresh") ?? false\<close>\<close>

definition mentions_page_refresh :: "string option \<Rightarrow> bool" where
  "mentions_page_refresh e =
     (case e of None \<Rightarrow> False | Some msg \<Rightarrow> str_includes msg ''page refresh'')"

definition isPlaceholderState :: "UploadState \<Rightarrow> UploadContext \<Rightarrow> bool" where
  "isPlaceholderState state context =
     (state = S_error \<and> file_size (ctx_file context) = 0 \<and> 0 < ctx_fileSize context
      \<and> mentions_page_refresh (ctx_error context))"

subsection \<open>The transition table as the specification words it\<close>

text \<open>
  The table of section 4.1 of the specification as a flat list of its entries, one
  (state, event) pair with its destination per listed transition. \<open>spec_table\<close> is
  \<open>Some d\<close> when the pair is listed with destination \<open>d\<close>, \<open>None\<close> otherwise.
\<close>

definition spec_rows :: "((UploadState \<times> UploadEvent) \<times> UploadState) list" where
  "spec_rows =
     [((S_idle, ADD_FILE), S_queued),
      ((S_queued, START_RESERVE), S_reserving), ((S_queued, CANCEL), S_canceled),
      ((S_queued, REMOVE), S_idle),
      ((S_reserving, RESERVE_SUCCESS), S_ready), ((S_reserving, RESERVE_ERROR), S_error),
      ((S_reserving, CANCEL), S_canceled), ((S_reserving, REMOVE), S_idle),
      ((S_ready, START_UPLOAD), S_uploading), ((S_ready, CANCEL), S_canceled),
      ((S_ready, REMOVE), S_idle),
      ((S_uploading, UPLOAD_PROGRESS), S_uploading), ((S_uploading, UPLOAD_SUCCESS), S_success),
      ((S_uploading, UPLOAD_ERROR), S_error), ((S_uploading, CANCEL), S_canceled),
      ((S_success, REMOVE), S_idle),
      ((S_error, RETRY), S_retrying), ((S_error, REMOVE), S_idle),
      ((S_canceled, RETRY), S_retrying), ((S_canceled, REMOVE), S_idle),
      ((S_retrying, START_RESERVE), S_reserving), ((S_retrying, RESERVE_SUCCESS), S_ready),
      ((S_retrying, START_UPLOAD), S_uploading), ((S_retrying, UPLOAD_SUCCESS), S_success),
      ((S_retrying, UPLOAD_ERROR), S_error), ((S_retrying, CANCEL), S_canceled),
      ((S_retrying, REMOVE), S_idle)]"

definition spec_table :: "UploadState \<Rightarrow> UploadEvent \<Rightarrow> UploadState option" where
  "spec_table s e = map_of spec_rows (s, e)"

section \<open>Session state machine (src/atoms/overallProgressStateMachine.ts)\<close>



text \<open>
  The counters are JavaScript numbers holding integers; \<open>int\<close> keeps the subtractions
  of \<open>determineEventFromContext\<close> exact (no truncation at zero).
\<close>

record OverallProgressContext =
  totalFiles :: int
  completedFiles :: int
  failedFiles :: int
  canceledFiles :: int
  uploadingFiles :: int
  preparingFiles :: int
  readyFiles :: int
  overallProgress :: int
  hasRetryableFiles :: bool
  hasPlaceholderFiles :: bool








subsection \<open>The precedence list as the specification words it\<close>



section \<open>Transfer records and their persistence (the uploads atoms, src/lib/localStorage.ts)\<close>

datatype UploadStatus = queued | reserving | ready | uploading | success | error | canceled

record UploadItem =
  item_id :: string
  item_file :: File
  item_fileSize :: int
  item_progress :: int
  item_status :: UploadStatus
  item_error :: "string option"
  item_remoteId :: "string option"
  item_uploadUrl :: "string option"
  item_method :: "Method option"
  item_controller :: "AbortController option"
  item_stateMachine :: "UploadStateMachine option"

text \<open>
  \<open>Record<string, UploadItem>\<close>: an object with string keys, enumerated in insertion
  order. \<open>map_of\<close> reads a key, \<open>AList.update\<close> assigns one (in place for an existing
  key, appended for a new one), \<open>map snd\<close> is \<open>Object.values\<close>.
\<close>

type_synonym UploadsState = "(string \<times> UploadItem) list"

record SerializableUploadItem =
  ser_id :: string
  ser_fileName :: string
  ser_fileSize :: int
  ser_fileType :: string
  ser_fileLastModified :: int
  ser_progress :: int
  ser_status :: UploadStatus
  ser_error :: "string option"
  ser_remoteId :: "string option"
  ser_uploadUrl :: "string option"
  ser_method :: "Method option"

type_synonym SerializableUploadsState = "(string \<times> SerializableUploadItem) list"

text \<open>
  The store behind \<open>uploadsAtom\<close>: the persisted projection held by
  \<open>serializableUploadsAtom\<close> and the singleton \<open>fileCache\<close>, whose private \<open>Map\<close>
  from id to \<open>File\<close> is read and written by key only.
\<close>

type_synonym FileCache = "string \<rightharpoonup> File"

record Store =
  serializable :: SerializableUploadsState
  fileCache :: FileCache

text \<open>The methods of the class \<open>FileCache\<close> that the atoms call.\<close>

definition cache_set :: "string \<Rightarrow> File \<Rightarrow> FileCache \<Rightarrow> FileCache" where
  "cache_set ident file cache = cache(ident \<mapsto> file)"

definition cache_get :: "FileCache \<Rightarrow> string \<Rightarrow> File option" where
  "cache_get cache ident = cache ident"

definition cache_has :: "FileCache \<Rightarrow> string \<Rightarrow> bool" where
  "cache_has cache ident = (cache ident \<noteq> None)"

definition cache_delete :: "string \<Rightarrow> FileCache \<Rightarrow> FileCache" where
  "cache_delete ident cache = cache(ident := None)"

text \<open>\<open>stateMachine.send(event, payload)\<close> as a statement: the result flag is dropped.\<close>

definition fire :: "UploadEvent \<Rightarrow> ContextPatch option \<Rightarrow> UploadStateMachine \<Rightarrow> UploadStateMachine" where
  "fire event payload m = snd (send event payload m)"

text \<open>The payload \<open>{ remoteId: item.remoteId, uploadUrl: item.uploadUrl, method: item.method }\<close>.\<close>

definition destination_patch :: "SerializableUploadItem \<Rightarrow> ContextPatch" where
  "destination_patch item =
     no_patch\<lparr>p_remoteId := Some (ser_remoteId item), p_uploadUrl := Some (ser_uploadUrl item),
       p_method := Some (ser_method item)\<rparr>"

text \<open>The branch of the getter that replays events until the machine matches \<open>item.status\<close>.\<close>

definition replay_status :: "SerializableUploadItem \<Rightarrow> UploadStateMachine \<Rightarrow> UploadStateMachine" where
  "replay_status item m =
     (case ser_status item of
        queued \<Rightarrow> fire ADD_FILE None m
      | reserving \<Rightarrow> fire START_RESERVE None (fire ADD_FILE None m)
      | ready \<Rightarrow>
          fire RESERVE_SUCCESS (Some (destination_patch item))
            (fire START_RESERVE None (fire ADD_FILE None m))
      | uploading \<Rightarrow>
          fire START_UPLOAD None
            (fire RESERVE_SUCCESS (Some (destination_patch item))
              (fire START_RESERVE None (fire ADD_FILE None m)))
      | success \<Rightarrow>
          fire UPLOAD_SUCCESS None
            (fire START_UPLOAD None
              (fire RESERVE_SUCCESS (Some (destination_patch item))
                (fire START_RESERVE None (fire ADD_FILE None m))))
      | error \<Rightarrow>
          fire RESERVE_ERROR (Some (no_patch\<lparr>p_error := Some (ser_error item)\<rparr>))
            (fire START_RESERVE None (fire ADD_FILE None m))
      | canceled \<Rightarrow> fire CANCEL None (fire ADD_FILE None m))"

definition interrupted_message :: string where
  "interrupted_message =
     ''Upload was interrupted when the page refreshed. Please re-add this file to continue.''"

definition lost_message :: string where
  "lost_message =
     ''This file was lost when the page refreshed due to browser security. Please re-add it to upload.''"

definition cannot_retry_message :: string where
  "cannot_retry_message =
     ''Cannot retry - file was lost during page refresh. Please re-add the file.''"

text \<open>
  One iteration of the getter's loop: the record built for key \<open>ident\<close> and persisted
  \<open>item\<close>, given the result of \<open>fileCache.get(id)\<close>. The spread \<open>...item\<close> supplies
  id, progress, status, error and the destination; no \<open>controller\<close> key exists.
\<close>

definition rehydrate_item :: "File option \<Rightarrow> string \<Rightarrow> SerializableUploadItem \<Rightarrow> UploadItem" where
  "rehydrate_item cached ident item =
     (case cached of
        Some file \<Rightarrow>
          \<lparr>item_id = ser_id item, item_file = file, item_fileSize = ser_fileSize item,
           item_progress = ser_progress item, item_status = ser_status item,
           item_error = ser_error item, item_remoteId = ser_remoteId item,
           item_uploadUrl = ser_uploadUrl item, item_method = ser_method item,
           item_controller = None,
           item_stateMachine = Some (replay_status item (createUploadStateMachine file ident))\<rparr>
      | None \<Rightarrow>
          let placeholderFile = \<lparr>file_name = ser_fileName item, file_size = 0,
                file_type = ser_fileType item, file_lastModified = ser_fileLastModified item\<rparr>;
              errorMessage = (if ser_status item = uploading \<or> ser_status item = reserving
                              then interrupted_message else lost_message)
          in \<lparr>item_id = ser_id item, item_file = placeholderFile,
               item_fileSize = ser_fileSize item, item_progress = ser_progress item,
               item_status = error, item_error = Some errorMessage,
               item_remoteId = ser_remoteId item, item_uploadUrl = ser_uploadUrl item,
               item_method = ser_method item, item_controller = None,
               item_stateMachine =
                 Some (fire RESERVE_ERROR (Some (no_patch\<lparr>p_error := Some (Some errorMessage)\<rparr>))
                        (fire START_RESERVE None
                          (fire ADD_FILE None (createUploadStateMachine placeholderFile ident))))\<rparr>)"

text \<open>
  The getter of \<open>uploadsAtom\<close>. The loop assigns \<open>uploads[id]\<close> once per entry of the
  persisted object, whose keys are unique, so the result has one entry per entry.
\<close>

definition uploadsAtom_read :: "Store \<Rightarrow> UploadsState" where
  "uploadsAtom_read st =
     map (\<lambda>(ident, item). (ident, rehydrate_item (cache_get (fileCache st) ident) ident item))
       (serializable st)"

text \<open>The object literal the setter stores for one record.\<close>

definition project :: "UploadItem \<Rightarrow> SerializableUploadItem" where
  "project upload =
     \<lparr>ser_id = item_id upload, ser_fileName = file_name (item_file upload),
      ser_fileSize = file_size (item_file upload), ser_fileType = file_type (item_file upload),
      ser_fileLastModified = file_lastModified (item_file upload),
      ser_progress = item_progress upload, ser_status = item_status upload,
      ser_error = item_error upload, ser_remoteId = item_remoteId upload,
      ser_uploadUrl = item_uploadUrl upload, ser_method = item_method upload\<rparr>"

text \<open>
  The setter of \<open>uploadsAtom\<close>: every record's file goes into the cache and the
  persisted object is rebuilt from the new records alone. Nothing is deleted from
  the cache here.
\<close>

definition uploadsAtom_write :: "UploadsState \<Rightarrow> Store \<Rightarrow> Store" where
  "uploadsAtom_write newUploads st =
     \<lparr>serializable = map (\<lambda>(ident, upload). (ident, project upload)) newUploads,
      fileCache = fold (\<lambda>(ident, upload) cache. cache_set ident (item_file upload) cache)
                    newUploads (fileCache st)\<rparr>"

definition isPlaceholderFile :: "UploadItem \<Rightarrow> bool" where
  "isPlaceholderFile upload =
     (case item_stateMachine upload of
        Some m \<Rightarrow> isPlaceholderState (sm_state m) (sm_context m)
      | None \<Rightarrow> file_size (item_file upload) = 0 \<and> 0 < item_fileSize upload)"

section \<open>Derived view: the context computed by overallProgressAtom\<close>

text \<open>
  \<open>Math.round\<close> rounds to the nearest integer, ties towards plus infinity; on the
  exact quotient that is \<^const>\<open>round\<close>.
\<close>

definition progressSum :: "UploadItem list \<Rightarrow> int" where
  "progressSum uploads =
     foldl (\<lambda>sum upload.
              if item_status upload = success then sum + 100
              else if item_status upload = uploading then sum + item_progress upload
              else sum + 0) 0 uploads"

definition count_status :: "UploadStatus \<Rightarrow> UploadItem list \<Rightarrow> int" where
  "count_status s uploads = int (length (filter (\<lambda>u. item_status u = s) uploads))"

definition compute_context :: "UploadItem list \<Rightarrow> OverallProgressContext" where
  "compute_context uploads =
     (let total = int (length uploads) in
      \<lparr>totalFiles = total,
       completedFiles = count_status success uploads,
       failedFiles = count_status error uploads,
       canceledFiles = count_status canceled uploads,
       uploadingFiles = count_status uploading uploads,
       preparingFiles = count_status reserving uploads,
       readyFiles = count_status ready uploads,
       overallProgress =
         (if 0 < total then round (rat_of_int (progressSum uploads) / rat_of_int total) else 0),
       hasRetryableFiles =
         list_ex (\<lambda>u. item_status u = error \<and> \<not> mentions_page_refresh (item_error u)) uploads,
       hasPlaceholderFiles = list_ex isPlaceholderFile uploads\<rparr>)"

text \<open>The contribution of one transfer, in the words of section 4.5.\<close>

definition contribution :: "UploadItem \<Rightarrow> int" where
  "contribution t =
     (if item_status t = success then 100
      else if item_status t = uploading then item_progress t
      else 0)"

section \<open>Write atoms over the registry\<close>

text \<open>
  Each write atom is modelled by its body: the arguments are the values its
  \<open>get(...)\<close> calls return (the registry \<open>s\<close>, and the persisted object where it is
  read), the result holds the values its \<open>set(...)\<close> calls receive and the effects on
  the outside (the controllers aborted). Where the body returns before any \<open>set\<close>,
  the registry in the result is the one that was read.
\<close>

text \<open>\<open>Partial<UploadItem>\<close>, with the same convention as \<open>ContextPatch\<close>.\<close>

record ItemPatch =
  ip_id :: "string option"
  ip_file :: "File option"
  ip_fileSize :: "int option"
  ip_progress :: "int option"
  ip_status :: "UploadStatus option"
  ip_error :: "string option option"
  ip_remoteId :: "string option option"
  ip_uploadUrl :: "string option option"
  ip_method :: "Method option option"
  ip_controller :: "AbortController option option"
  ip_stateMachine :: "UploadStateMachine option option"

definition no_updates :: ItemPatch where
  "no_updates = \<lparr>ip_id = None, ip_file = None, ip_fileSize = None, ip_progress = None,
     ip_status = None, ip_error = None, ip_remoteId = None, ip_uploadUrl = None,
     ip_method = None, ip_controller = None, ip_stateMachine = None\<rparr>"

text \<open>The spread \<open>{ ...s[id], ...updates }\<close>.\<close>

definition merge_item :: "UploadItem \<Rightarrow> ItemPatch \<Rightarrow> UploadItem" where
  "merge_item u p =
     \<lparr>item_id = override (item_id u) (ip_id p),
      item_file = override (item_file u) (ip_file p),
      item_fileSize = override (item_fileSize u) (ip_fileSize p),
      item_progress = override (item_progress u) (ip_progress p),
      item_status = override (item_status u) (ip_status p),
      item_error = override (item_error u) (ip_error p),
      item_remoteId = override (item_remoteId u) (ip_remoteId p),
      item_uploadUrl = override (item_uploadUrl u) (ip_uploadUrl p),
      item_method = override (item_method u) (ip_method p),
      item_controller = override (item_controller u) (ip_controller p),
      item_stateMachine = override (item_stateMachine u) (ip_stateMachine p)\<rparr>"

definition updateUploadAtom :: "string \<Rightarrow> ItemPatch \<Rightarrow> UploadsState \<Rightarrow> UploadsState" where
  "updateUploadAtom ident updates s =
     (case map_of s ident of
        Some u \<Rightarrow> AList.update ident (merge_item u updates) s
      | None \<Rightarrow> s)"

subsection \<open>addFilesAtom and the add step of prepareUploadsAtom\<close>

definition uploadsStarted :: "UploadsState \<Rightarrow> bool" where
  "uploadsStarted currentUploads =
     (let uploadValues = map snd currentUploads;
          inProgressFiles = length (filter (\<lambda>u. item_status u = reserving
                                               \<or> item_status u = uploading) uploadValues);
          successFiles = length (filter (\<lambda>u. item_status u = success) uploadValues)
      in 0 < inProgressFiles \<or> 0 < successFiles)"

text \<open>
  \<open>crypto.randomUUID()\<close> is outside the program: each file arrives paired with the
  identifier drawn for it.
\<close>

definition queued_record :: "File \<Rightarrow> string \<Rightarrow> UploadItem" where
  "queued_record file ident =
     \<lparr>item_id = ident, item_file = file, item_fileSize = file_size file, item_progress = 0,
      item_status = queued, item_error = None, item_remoteId = None, item_uploadUrl = None,
      item_method = None, item_controller = None,
      item_stateMachine = Some (fire ADD_FILE None (createUploadStateMachine file ident))\<rparr>"

definition addFilesAtom :: "(File \<times> string) list \<Rightarrow> UploadsState \<Rightarrow> UploadsState" where
  "addFilesAtom files s =
     (if uploadsStarted s then s
      else fold (\<lambda>(file, ident) next. AList.update ident (queued_record file ident) next)
             files s)"

definition reserving_record :: "File \<Rightarrow> string \<Rightarrow> UploadItem" where
  "reserving_record file ident =
     \<lparr>item_id = ident, item_file = file, item_fileSize = file_size file, item_progress = 0,
      item_status = reserving, item_error = None, item_remoteId = None, item_uploadUrl = None,
      item_method = None, item_controller = None,
      item_stateMachine =
        Some (fire START_RESERVE None
               (fire ADD_FILE None (createUploadStateMachine file ident)))\<rparr>"

text \<open>
  \<open>prepareUploadsAtom\<close> up to its first \<open>set(uploadsAtom, uploads)\<close>; the reservation
  requests that follow are asynchronous calls to the backend.
\<close>

definition prepareUploads_add :: "(File \<times> string) list \<Rightarrow> UploadsState \<Rightarrow> UploadsState" where
  "prepareUploads_add files s =
     (if files = [] then s
      else if uploadsStarted s then s
      else fold (\<lambda>(file, ident) uploads. AList.update ident (reserving_record file ident) uploads)
             files s)"

subsection \<open>cancelUploadAtom and cancelAllActiveUploadsAtom\<close>

record CancelResult =
  res_uploads :: UploadsState
  res_serializable :: SerializableUploadsState
  res_aborted :: "AbortController list"
  res_changed :: bool

text \<open>\<open>if (upload.controller) upload.controller.abort()\<close>: the handles aborted.\<close>

definition abort_of :: "UploadItem \<Rightarrow> AbortController list" where
  "abort_of upload = (case item_controller upload of Some c \<Rightarrow> [c] | None \<Rightarrow> [])"

text \<open>
  \<open>upload.stateMachine.send("CANCEL")\<close> followed by
  \<open>{ ...upload, status: "canceled", controller: undefined }\<close>; the copy shares the
  machine that received the event.
\<close>

definition canceled_copy :: "UploadItem \<Rightarrow> UploadItem" where
  "canceled_copy upload =
     upload\<lparr>item_status := canceled, item_controller := None,
       item_stateMachine := map_option (fire CANCEL None) (item_stateMachine upload)\<rparr>"

definition mark_canceled :: "string \<Rightarrow> SerializableUploadsState \<Rightarrow> SerializableUploadsState" where
  "mark_canceled ident ser =
     (case map_of ser ident of
        Some e \<Rightarrow> AList.update ident (e\<lparr>ser_status := canceled\<rparr>) ser
      | None \<Rightarrow> ser)"


text \<open>
  The body of the \<open>forEach\<close> of \<open>cancelAllActiveUploadsAtom\<close>, run over the array
  \<open>Object.values(s)\<close> taken before the loop; it assigns at the key \<open>upload.id\<close>.
\<close>

definition cancel_step :: "UploadItem \<Rightarrow> CancelResult \<Rightarrow> CancelResult" where
  "cancel_step upload r =
     (if item_status upload = uploading \<or> item_status upload = reserving then
        \<lparr>res_uploads = AList.update (item_id upload) (canceled_copy upload) (res_uploads r),
         res_serializable = mark_canceled (item_id upload) (res_serializable r),
         res_aborted = res_aborted r @ abort_of upload,
         res_changed = True\<rparr>
      else r)"

text \<open>
  \<open>cancelAllActiveUploadsAtom\<close>: both \<open>set\<close> calls happen exactly when
  \<open>res_changed\<close> holds; otherwise nothing is written and the two objects in the
  result are the ones read.
\<close>

definition cancelAllActiveUploadsAtom ::
  "UploadsState \<Rightarrow> SerializableUploadsState \<Rightarrow> CancelResult" where
  "cancelAllActiveUploadsAtom s ser =
     fold cancel_step (map snd s)
       \<lparr>res_uploads = s, res_serializable = ser, res_aborted = [], res_changed = False\<rparr>"

subsection \<open>clearRemovableUploadsAtom\<close>

text \<open>The loop that fills \<open>next\<close>, keyed by \<open>upload.id\<close>.\<close>

definition keep_uploading :: "UploadsState \<Rightarrow> UploadsState" where
  "keep_uploading s =
     fold (\<lambda>upload next.
             if item_status upload = uploading then AList.update (item_id upload) upload next
             else next)
       (map snd s) []"

text \<open>
  The whole atom on the store: read, filter, \<open>set(uploadsAtom, next)\<close>. The body never
  calls \<open>fileCache.delete\<close>.
\<close>

definition clearRemovableUploadsAtom :: "Store \<Rightarrow> Store" where
  "clearRemovableUploadsAtom st = uploadsAtom_write (keep_uploading (uploadsAtom_read st)) st"

subsection \<open>retryUploadAtom up to the transmit call\<close>

text \<open>
  How \<open>retryUploadAtom\<close> proceeds before it awaits the transport: it returns at once,
  it refuses a placeholder, or it resets the record and calls \<open>performSimpleUpload\<close>
  with the record it read. The registry in the outcome is the one after the
  \<open>updateUploadAtom\<close> call.
\<close>

datatype RetryOutcome =
    RetryIgnored
  | RetryRefused UploadsState
  | RetryTransmit UploadsState UploadItem

definition retryUploadAtom :: "string \<Rightarrow> UploadsState \<Rightarrow> RetryOutcome" where
  "retryUploadAtom ident uploads =
     (case map_of uploads ident of
        None \<Rightarrow> RetryIgnored
      | Some upload \<Rightarrow>
          if item_status upload \<noteq> error then RetryIgnored
          else if isPlaceholderFile upload then
            RetryRefused
              (updateUploadAtom ident
                 (no_updates\<lparr>ip_status := Some error,
                    ip_error := Some (Some cannot_retry_message)\<rparr>) uploads)
          else
            RetryTransmit
              (updateUploadAtom ident
                 (no_updates\<lparr>ip_status := Some ready, ip_progress := Some 0,
                    ip_error := Some None, ip_controller := Some None\<rparr>) uploads)
              upload)"

subsection \<open>The atoms on the store\<close>

text \<open>
  What an atom does to the program's state follows from its body and the two ends of
  \<open>uploadsAtom\<close>: \<open>get(uploadsAtom)\<close> is the getter applied to the store, and
  \<open>set(uploadsAtom, v)\<close> is the setter. A controller lives outside the store, in the
  transfer that created it; the store keeps no field for it.
\<close>

text \<open>
  \<open>set(updateUploadAtom, id, updates)\<close>: the registry is written only when the id
  is found.
\<close>

definition updateUpload_on_store :: "string \<Rightarrow> ItemPatch \<Rightarrow> Store \<Rightarrow> Store" where
  "updateUpload_on_store ident updates st =
     (case map_of (uploadsAtom_read st) ident of
        Some u \<Rightarrow> uploadsAtom_write (updateUploadAtom ident updates (uploadsAtom_read st)) st
      | None \<Rightarrow> st)"

text \<open>
  The first statement of \<open>performSimpleUpload\<close>: the transfer creates its
  \<open>AbortController\<close> and hands it to the registry together with the new status.
\<close>

definition performSimpleUpload_begin :: "AbortController \<Rightarrow> string \<Rightarrow> Store \<Rightarrow> Store" where
  "performSimpleUpload_begin abortController ident st =
     updateUpload_on_store ident
       (no_updates\<lparr>ip_controller := Some (Some abortController), ip_status := Some uploading\<rparr>)
       st"

text \<open>
  \<open>cancelAllActiveUploadsAtom\<close> on the store: both objects are read first, the loop
  runs, and when something changed the registry is set and then the persisted object
  is set to the patched copy, which is the last write. The second component lists
  the controllers aborted.
\<close>

definition cancelAllActiveUploads_on_store :: "Store \<Rightarrow> Store \<times> AbortController list" where
  "cancelAllActiveUploads_on_store st =
     (let r = cancelAllActiveUploadsAtom (uploadsAtom_read st) (serializable st) in
      (if res_changed r
       then (uploadsAtom_write (res_uploads r) st)\<lparr>serializable := res_serializable r\<rparr>
       else st,
       res_aborted r))"

section \<open>Vocabulary of the persistence round trip\<close>

text \<open>
  The fields the round trip is about: status, progress and the destination triple
  (remote id, upload URL, method).
\<close>

definition same_fields :: "UploadItem \<Rightarrow> UploadItem \<Rightarrow> bool" where
  "same_fields r u \<longleftrightarrow>
     item_status r = item_status u \<and> item_progress r = item_progress u \<and>
     item_remoteId r = item_remoteId u \<and> item_uploadUrl r = item_uploadUrl u \<and>
     item_method r = item_method u"

section \<open>Concrete inputs\<close>

definition file_a :: File where
  "file_a = \<lparr>file_name = ''a.txt'', file_size = 1000, file_type = ''text/plain'',
     file_lastModified = 0\<rparr>"

definition progress_patch :: ContextPatch where
  "progress_patch = no_patch\<lparr>p_progress := Some 50\<rparr>"



text \<open>A plain record in a given status, with a given progress, and nothing else set.\<close>

definition plain_record :: "string \<Rightarrow> UploadStatus \<Rightarrow> int \<Rightarrow> UploadItem" where
  "plain_record ident s p =
     \<lparr>item_id = ident, item_file = file_a, item_fileSize = 1000, item_progress = p,
      item_status = s, item_error = None, item_remoteId = None, item_uploadUrl = None,
      item_method = None, item_controller = None, item_stateMachine = None\<rparr>"

text \<open>
  A batch of three records: one uploading and one reserving, each holding a
  controller, and one successful.
\<close>

definition batch :: UploadsState where
  "batch = [(''a'', (plain_record ''a'' uploading 40)\<lparr>item_controller := Some 1\<rparr>),
            (''b'', (plain_record ''b'' reserving 0)\<lparr>item_controller := Some 2\<rparr>),
            (''c'', plain_record ''c'' success 100)]"

text \<open>A registry that has not started: one queued record.\<close>

definition waiting :: UploadsState where
  "waiting = [(''q'', plain_record ''q'' queued 0)]"

definition empty_store :: Store where
  "empty_store = \<lparr>serializable = [], fileCache = Map.empty\<rparr>"

text \<open>
  A persisted projection of a 1000-byte file that was queued, and the record the
  getter builds from it after a restart, when the cache no longer holds the file.
\<close>

definition persisted_queued :: SerializableUploadItem where
  "persisted_queued =
     \<lparr>ser_id = ''a'', ser_fileName = ''a.txt'', ser_fileSize = 1000,
      ser_fileType = ''text/plain'', ser_fileLastModified = 0, ser_progress = 0,
      ser_status = queued, ser_error = None, ser_remoteId = None, ser_uploadUrl = None,
      ser_method = None\<rparr>"

definition lost_record :: UploadItem where
  "lost_record = rehydrate_item None ''a'' persisted_queued"

text \<open>A store holding one successful transfer whose file is still cached.\<close>

definition store_one_success :: Store where
  "store_one_success =
     \<lparr>serializable = [(''a'', persisted_queued\<lparr>ser_status := success, ser_progress := 100\<rparr>)],
      fileCache = cache_set ''a'' file_a Map.empty\<rparr>"

text \<open>
  A store holding one transfer that is ready to be sent, its file cached, and the
  same store after a transfer of it has begun with controller 1.
\<close>

definition store_one_ready :: Store where
  "store_one_ready =
     \<lparr>serializable =
        [(''a'', persisted_queued\<lparr>ser_status := ready, ser_remoteId := Some ''r1'',
                  ser_uploadUrl := Some ''https://example.com/upload'',
                  ser_method := Some PUT\<rparr>)],
      fileCache = cache_set ''a'' file_a Map.empty\<rparr>"

definition store_in_flight :: Store where
  "store_in_flight = performSimpleUpload_begin 1 ''a'' store_one_ready"

section \<open>Properties of the per-transfer state machine\<close>

lemma getNextState_table:
  "getNextState s e = (case spec_table s e of Some d \<Rightarrow> d | None \<Rightarrow> s)"
  by (cases s; cases e;
      simp add: getNextState_def canTransition_def spec_table_def spec_rows_def)

lemma getNextState_unlisted: "spec_table s e = None \<Longrightarrow> getNextState s e = s"
  by (simp add: getNextState_table)

text \<open>
  C1. For every state and event, \<open>getNextState\<close> returns the destination the
  transition table of section 4.1 lists for the pair, and the state itself when the
  pair is not listed. The rows for \<open>uploading\<close> and \<open>retrying\<close> accept exactly the
  events the table names, with the destinations it names.
\<close>

theorem getNextState_follows_table:
  "getNextState s e = (case spec_table s e of Some d \<Rightarrow> d | None \<Rightarrow> s)
   \<and> map (getNextState S_uploading) [UPLOAD_PROGRESS, UPLOAD_SUCCESS, UPLOAD_ERROR, CANCEL]
       = [S_uploading, S_success, S_error, S_canceled]
   \<and> filter (canTransition S_uploading)
        [ADD_FILE, START_RESERVE, RESERVE_SUCCESS, RESERVE_ERROR, START_UPLOAD,
         UPLOAD_PROGRESS, UPLOAD_SUCCESS, UPLOAD_ERROR, CANCEL, RETRY, REMOVE]
       = [UPLOAD_PROGRESS, UPLOAD_SUCCESS, UPLOAD_ERROR, CANCEL]
   \<and> map (getNextState S_retrying)
        [START_RESERVE, RESERVE_SUCCESS, START_UPLOAD, UPLOAD_SUCCESS, UPLOAD_ERROR,
         CANCEL, REMOVE]
       = [S_reserving, S_ready, S_uploading, S_success, S_error, S_canceled, S_idle]
   \<and> filter (canTransition S_retrying)
        [ADD_FILE, START_RESERVE, RESERVE_SUCCESS, RESERVE_ERROR, START_UPLOAD,
         UPLOAD_PROGRESS, UPLOAD_SUCCESS, UPLOAD_ERROR, CANCEL, RETRY, REMOVE]
       = [START_RESERVE, RESERVE_SUCCESS, START_UPLOAD, UPLOAD_SUCCESS, UPLOAD_ERROR,
          CANCEL, REMOVE]"
proof -
  have rows:
    "map (getNextState S_uploading) [UPLOAD_PROGRESS, UPLOAD_SUCCESS, UPLOAD_ERROR, CANCEL]
       = [S_uploading, S_success, S_error, S_canceled]"
    "map (getNextState S_retrying)
        [START_RESERVE, RESERVE_SUCCESS, START_UPLOAD, UPLOAD_SUCCESS, UPLOAD_ERROR,
         CANCEL, REMOVE]
       = [S_reserving, S_ready, S_uploading, S_success, S_error, S_canceled, S_idle]"
    by (simp_all add: getNextState_def canTransition_def)
  have accepted:
    "filter (canTransition S_uploading)
        [ADD_FILE, START_RESERVE, RESERVE_SUCCESS, RESERVE_ERROR, START_UPLOAD,
         UPLOAD_PROGRESS, UPLOAD_SUCCESS, UPLOAD_ERROR, CANCEL, RETRY, REMOVE]
       = [UPLOAD_PROGRESS, UPLOAD_SUCCESS, UPLOAD_ERROR, CANCEL]"
    "filter (canTransition S_retrying)
        [ADD_FILE, START_RESERVE, RESERVE_SUCCESS, RESERVE_ERROR, START_UPLOAD,
         UPLOAD_PROGRESS, UPLOAD_SUCCESS, UPLOAD_ERROR, CANCEL, RETRY, REMOVE]
       = [START_RESERVE, RESERVE_SUCCESS, START_UPLOAD, UPLOAD_SUCCESS, UPLOAD_ERROR,
          CANCEL, REMOVE]"
    by (simp_all add: canTransition_def)
  from getNextState_table rows accepted show ?thesis by blast
qed

text \<open>
  C4, as stated, fails where a payload comes with the unlisted event: the state
  stays and the payload is merged, but \<open>send\<close> returns \<open>true\<close>, the flag it also
  returns after a real transition. An idle machine receiving \<open>UPLOAD_PROGRESS\<close> with
  a progress payload shows it.
\<close>

theorem send_unlisted_payload_counterexample:
  "spec_table S_idle UPLOAD_PROGRESS = None \<and>
   sm_state (createUploadStateMachine file_a ''a'') = S_idle \<and>
   fst (send UPLOAD_PROGRESS (Some progress_patch) (createUploadStateMachine file_a ''a''))
     = True"
  by (simp add: spec_table_def spec_rows_def send_def createUploadStateMachine_def
      getNextState_def canTransition_def Let_def)

text \<open>
  C4, amended. For an event the table does not list for the current state, \<open>send\<close>
  leaves the state unchanged and merges the payload if one is supplied; its result
  is \<open>false\<close> exactly when no payload is supplied and \<open>true\<close> when one is.
\<close>

theorem send_unlisted_event:
  "spec_table (sm_state m) e = None \<Longrightarrow>
   send e payload m =
     (payload \<noteq> None,
      m\<lparr>sm_context := (case payload of None \<Rightarrow> sm_context m
                        | Some p \<Rightarrow> merge_context (sm_context m) p)\<rparr>)"
  by (cases payload) (simp_all add: send_def getNextState_unlisted Let_def)

theorem send_unlisted_event_witness:
  "spec_table S_idle UPLOAD_PROGRESS = None \<and>
   send UPLOAD_PROGRESS None (createUploadStateMachine file_a ''a'')
     = (False, createUploadStateMachine file_a ''a'') \<and>
   sm_state (snd (send UPLOAD_PROGRESS (Some progress_patch)
                    (createUploadStateMachine file_a ''a''))) = S_idle \<and>
   ctx_progress (sm_context (snd (send UPLOAD_PROGRESS (Some progress_patch)
                    (createUploadStateMachine file_a ''a'')))) = 50"
proof -
  have unlisted:
    "spec_table (sm_state (createUploadStateMachine file_a ''a'')) UPLOAD_PROGRESS = None"
    by (simp add: createUploadStateMachine_def spec_table_def spec_rows_def)
  show ?thesis
    using unlisted send_unlisted_event [OF unlisted, of None]
      send_unlisted_event [OF unlisted, of "Some progress_patch"]
    by (simp add: createUploadStateMachine_def progress_patch_def merge_context_def
        override_def no_patch_def)
qed

section \<open>Properties of the session state machine\<close>




section \<open>Properties of the derived view\<close>

lemma progressSum_acc:
  "foldl (\<lambda>sum upload.
              if item_status upload = success then sum + 100
              else if item_status upload = uploading then sum + item_progress upload
              else sum + 0) a uploads = a + sum_list (map contribution uploads)"
  by (induction uploads arbitrary: a) (simp_all add: contribution_def)

lemma progressSum_contribution: "progressSum uploads = sum_list (map contribution uploads)"
  by (simp add: progressSum_def progressSum_acc)

lemma length_two: "length xs = 2 \<Longrightarrow> \<exists>x y. xs = [x, y]"
  by (cases xs; cases "tl xs") auto

text \<open>
  C3. For a non-empty list of transfers the overall progress is the rounded mean of
  the contributions (100 for success, the progress for uploading, 0 otherwise); a
  session of exactly two transfers, one successful and one failed at progress 90,
  has overall progress 50.
\<close>

theorem overallProgress_formula:
  "uploads \<noteq> [] \<Longrightarrow>
   overallProgress (compute_context uploads) =
     round (rat_of_int (sum_list (map contribution uploads)) / rat_of_int (int (length uploads)))
   \<and> (length uploads = 2
        \<and> (\<exists>a \<in> set uploads. item_status a = success)
        \<and> (\<exists>b \<in> set uploads. item_status b = error \<and> item_progress b = 90)
      \<longrightarrow> overallProgress (compute_context uploads) = 50)"
proof
  assume "uploads \<noteq> []"
  then show "overallProgress (compute_context uploads) =
     round (rat_of_int (sum_list (map contribution uploads)) / rat_of_int (int (length uploads)))"
    by (simp add: compute_context_def Let_def progressSum_contribution)
next
  show "length uploads = 2
        \<and> (\<exists>a \<in> set uploads. item_status a = success)
        \<and> (\<exists>b \<in> set uploads. item_status b = error \<and> item_progress b = 90)
      \<longrightarrow> overallProgress (compute_context uploads) = 50"
  proof
    assume h: "length uploads = 2
        \<and> (\<exists>a \<in> set uploads. item_status a = success)
        \<and> (\<exists>b \<in> set uploads. item_status b = error \<and> item_progress b = 90)"
    then obtain x y where xy: "uploads = [x, y]" using length_two by blast
    from h xy have "(item_status x = success \<and> item_status y = error)
                  \<or> (item_status x = error \<and> item_status y = success)"
      by auto
    then show "overallProgress (compute_context uploads) = 50"
      by (auto simp: xy compute_context_def Let_def progressSum_def)
  qed
qed

theorem overallProgress_formula_witness:
  "[plain_record ''a'' success 100, plain_record ''b'' error 90] \<noteq> [] \<and>
   overallProgress
     (compute_context [plain_record ''a'' success 100, plain_record ''b'' error 90]) = 50 \<and>
   contribution (plain_record ''b'' error 90) = 0"
  using overallProgress_formula
    [of "[plain_record ''a'' success 100, plain_record ''b'' error 90]"]
  by (simp add: plain_record_def contribution_def)

section \<open>Properties of persistence\<close>

lemma map_of_read:
  "map_of (uploadsAtom_read st) k =
     map_option (rehydrate_item (fileCache st k) k) (map_of (serializable st) k)"
proof -
  have "map_of (map (\<lambda>(ident, item). (ident, rehydrate_item (c ident) ident item)) xs) k
          = map_option (rehydrate_item (c k) k) (map_of xs k)" for c xs
    by (induction xs) auto
  then show ?thesis by (simp add: uploadsAtom_read_def cache_get_def)
qed

lemma keys_read: "map fst (uploadsAtom_read st) = map fst (serializable st)"
  by (simp add: uploadsAtom_read_def case_prod_unfold comp_def)

lemma map_of_written:
  "map_of (serializable (uploadsAtom_write newUploads st)) k
     = map_option project (map_of newUploads k)"
proof -
  have "map_of (map (\<lambda>(ident, upload). (ident, project upload)) xs) k
          = map_option project (map_of xs k)" for xs
    by (induction xs) auto
  then show ?thesis by (simp add: uploadsAtom_write_def)
qed

lemma keys_written: "map fst (serializable (uploadsAtom_write newUploads st)) = map fst newUploads"
  by (simp add: uploadsAtom_write_def case_prod_unfold comp_def)

lemma cache_fold_dom:
  "dom (fold (\<lambda>(ident, upload) cache. cache_set ident (item_file upload) cache) xs c)
     = dom c \<union> fst ` set xs"
proof (induction xs arbitrary: c)
  case Nil
  show ?case by simp
next
  case (Cons x xs)
  have "dom (cache_set (fst x) (item_file (snd x)) c) = insert (fst x) (dom c)"
    by (simp add: cache_set_def)
  with Cons.IH [of "cache_set (fst x) (item_file (snd x)) c"] show ?case
    by (simp add: case_prod_unfold)
qed

lemma cache_fold_present:
  "map_of xs k = Some u \<Longrightarrow>
   fold (\<lambda>(ident, upload) cache. cache_set ident (item_file upload) cache) xs c k \<noteq> None"
proof -
  assume "map_of xs k = Some u"
  then have "k \<in> fst ` set xs" by (metis map_of_eq_None_iff option.distinct(1))
  then have "k \<in> dom (fold (\<lambda>(ident, upload) cache. cache_set ident (item_file upload) cache) xs c)"
    by (simp add: cache_fold_dom)
  then show ?thesis by blast
qed

lemma cache_written_present:
  "map_of newUploads k = Some u \<Longrightarrow> fileCache (uploadsAtom_write newUploads st) k \<noteq> None"
  by (simp add: uploadsAtom_write_def cache_fold_present)

lemma rehydrate_present:
  "item_status (rehydrate_item (Some f) k (project u)) = item_status u"
  "item_progress (rehydrate_item (Some f) k (project u)) = item_progress u"
  "item_remoteId (rehydrate_item (Some f) k (project u)) = item_remoteId u"
  "item_uploadUrl (rehydrate_item (Some f) k (project u)) = item_uploadUrl u"
  "item_method (rehydrate_item (Some f) k (project u)) = item_method u"
  "item_file (rehydrate_item (Some f) k (project u)) = f"
  by (simp_all add: rehydrate_item_def project_def)

lemma loss_messages_mention_refresh:
  "mentions_page_refresh (Some interrupted_message)"
  "mentions_page_refresh (Some lost_message)"
  by (simp_all add: mentions_page_refresh_def interrupted_message_def lost_message_def)

lemma rehydrate_absent:
  "item_status (rehydrate_item None k item) = error"
  "file_size (item_file (rehydrate_item None k item)) = 0"
  "item_error (rehydrate_item None k item) =
     Some (if ser_status item = uploading \<or> ser_status item = reserving
           then interrupted_message else lost_message)"
  "mentions_page_refresh (item_error (rehydrate_item None k item))"
  by (simp_all add: rehydrate_item_def Let_def loss_messages_mention_refresh)

text \<open>
  C5. After the registry is written, every record is found again when it is read
  back. Read at once, or later with its payload in the cache, the record has the
  same status, progress and destination as the one written. Read with its payload
  absent from the cache, the record has a zero-byte file, status \<open>error\<close> and one of
  the two restart-loss messages, whatever its status was.
\<close>

theorem persistence_round_trip:
  assumes "map_of newUploads k = Some u"
  shows "map fst (uploadsAtom_read (uploadsAtom_write newUploads st)) = map fst newUploads
    \<and> (\<exists>r. map_of (uploadsAtom_read (uploadsAtom_write newUploads st)) k = Some r
           \<and> same_fields r u)
    \<and> (\<exists>r. map_of (uploadsAtom_read ((uploadsAtom_write newUploads st)\<lparr>fileCache := cache\<rparr>)) k
              = Some r
           \<and> (case cache k of
                Some f \<Rightarrow> same_fields r u \<and> item_file r = f
              | None \<Rightarrow>
                  file_size (item_file r) = 0 \<and> item_status r = error
                  \<and> item_error r = Some (if item_status u = uploading \<or> item_status u = reserving
                                          then interrupted_message else lost_message)
                  \<and> mentions_page_refresh (item_error r)))"
proof -
  let ?w = "uploadsAtom_write newUploads st"
  have keys: "map fst (uploadsAtom_read ?w) = map fst newUploads"
    by (simp add: keys_read keys_written)
  from assms have stored: "map_of (serializable ?w) k = Some (project u)"
    by (simp add: map_of_written)
  from assms obtain f where f: "fileCache ?w k = Some f"
    using cache_written_present [of newUploads k u st] by auto
  have direct: "map_of (uploadsAtom_read ?w) k = Some (rehydrate_item (Some f) k (project u))"
    by (simp add: map_of_read stored f)
  have later: "map_of (uploadsAtom_read (?w\<lparr>fileCache := cache\<rparr>)) k
                 = Some (rehydrate_item (cache k) k (project u))"
    by (simp add: map_of_read stored)
  have shape: "(case cache k of
                Some f \<Rightarrow> same_fields (rehydrate_item (cache k) k (project u)) u
                          \<and> item_file (rehydrate_item (cache k) k (project u)) = f
              | None \<Rightarrow>
                  file_size (item_file (rehydrate_item (cache k) k (project u))) = 0
                  \<and> item_status (rehydrate_item (cache k) k (project u)) = error
                  \<and> item_error (rehydrate_item (cache k) k (project u))
                      = Some (if item_status u = uploading \<or> item_status u = reserving
                              then interrupted_message else lost_message)
                  \<and> mentions_page_refresh (item_error (rehydrate_item (cache k) k (project u))))"
  proof (cases "cache k")
    case None
    then show ?thesis using rehydrate_absent [of k "project u"]
      by (simp add: project_def)
  next
    case (Some g)
    then show ?thesis by (simp add: same_fields_def rehydrate_present)
  qed
  from keys direct later shape show ?thesis
    by (simp add: same_fields_def rehydrate_present)
qed

theorem persistence_round_trip_witness:
  "map_of batch ''a'' = Some ((plain_record ''a'' uploading 40)\<lparr>item_controller := Some 1\<rparr>)
   \<and> map_option item_status (map_of (uploadsAtom_read (uploadsAtom_write batch empty_store)) ''a'')
       = Some uploading
   \<and> map_option item_progress (map_of (uploadsAtom_read (uploadsAtom_write batch empty_store)) ''a'')
       = Some 40
   \<and> map_option item_status
         (map_of (uploadsAtom_read ((uploadsAtom_write batch empty_store)\<lparr>fileCache := Map.empty\<rparr>))
            ''a'')
       = Some error
   \<and> map_option item_error
         (map_of (uploadsAtom_read ((uploadsAtom_write batch empty_store)\<lparr>fileCache := Map.empty\<rparr>))
            ''a'')
       = Some (Some interrupted_message)"
proof -
  have present:
    "map_of batch ''a'' = Some ((plain_record ''a'' uploading 40)\<lparr>item_controller := Some 1\<rparr>)"
    by (simp add: batch_def)
  note trip = persistence_round_trip [OF present, of empty_store Map.empty]
  from trip obtain r where r:
    "map_of (uploadsAtom_read (uploadsAtom_write batch empty_store)) ''a'' = Some r"
    "same_fields r ((plain_record ''a'' uploading 40)\<lparr>item_controller := Some 1\<rparr>)"
    by blast
  from trip obtain r' where r':
    "map_of (uploadsAtom_read ((uploadsAtom_write batch empty_store)\<lparr>fileCache := Map.empty\<rparr>))
       ''a'' = Some r'"
    "item_status r' = error"
    "item_error r' = Some (if item_status ((plain_record ''a'' uploading 40)\<lparr>item_controller := Some 1\<rparr>) = uploading
                              \<or> item_status ((plain_record ''a'' uploading 40)\<lparr>item_controller := Some 1\<rparr>) = reserving
                           then interrupted_message else lost_message)"
    by auto
  from r(2) have "item_status r = uploading" "item_progress r = 40"
    by (simp_all add: same_fields_def plain_record_def)
  moreover from r'(3) have "item_error r' = Some interrupted_message"
    by (simp add: plain_record_def)
  ultimately show ?thesis using present r(1) r'(1) r'(2) by simp
qed

section \<open>Properties of the write atoms\<close>

lemma update_fresh: "k \<notin> fst ` set al \<Longrightarrow> AList.update k v al = al @ [(k, v)]"
  by (induction al) auto

lemma fold_update_fresh:
  "distinct (map snd files) \<Longrightarrow> snd ` set files \<inter> fst ` set s = {} \<Longrightarrow>
   fold (\<lambda>(file, ident) next. AList.update ident (g file ident) next) files s
     = s @ map (\<lambda>(file, ident). (ident, g file ident)) files"
proof (induction files arbitrary: s)
  case Nil
  show ?case by simp
next
  case (Cons x files)
  obtain fl ident where x: "x = (fl, ident)" by (cases x)
  from Cons.prems x have fresh: "ident \<notin> fst ` set s" by auto
  from Cons.prems x have rest: "distinct (map snd files)"
    "snd ` set files \<inter> fst ` set (s @ [(ident, g fl ident)]) = {}"
    by auto
  show ?case
    using Cons.IH [OF rest] by (simp add: x update_fresh [OF fresh])
qed

lemma uploadsStarted_iff:
  "uploadsStarted s \<longleftrightarrow>
     (\<exists>u \<in> snd ` set s. item_status u = reserving \<or> item_status u = uploading
                         \<or> item_status u = success)"
  by (auto simp: uploadsStarted_def Let_def filter_empty_conv)

text \<open>
  C6. If any transfer is reserving, uploading or successful, \<open>addFilesAtom\<close> and the
  add step of \<open>prepareUploadsAtom\<close> return the registry unchanged. Otherwise, the
  identifiers drawn being distinct and new, \<open>addFilesAtom\<close> appends one record per
  file, queued, with progress 0 and its own identifier.
\<close>

theorem addFiles_frozen_batch:
  "((\<exists>u \<in> snd ` set s. item_status u = reserving \<or> item_status u = uploading
                        \<or> item_status u = success)
      \<longrightarrow> addFilesAtom files s = s \<and> prepareUploads_add files s = s)
   \<and> (\<not> (\<exists>u \<in> snd ` set s. item_status u = reserving \<or> item_status u = uploading
                        \<or> item_status u = success)
        \<and> distinct (map snd files) \<and> snd ` set files \<inter> fst ` set s = {}
      \<longrightarrow> addFilesAtom files s = s @ map (\<lambda>(file, ident). (ident, queued_record file ident)) files
          \<and> length (addFilesAtom files s) = length s + length files
          \<and> (\<forall>(file, ident) \<in> set files.
                \<exists>u. map_of (addFilesAtom files s) ident = Some u \<and> item_status u = queued
                    \<and> item_id u = ident \<and> item_file u = file \<and> item_progress u = 0))"
proof (intro conjI impI)
  assume "\<exists>u \<in> snd ` set s. item_status u = reserving \<or> item_status u = uploading
                        \<or> item_status u = success"
  then have started: "uploadsStarted s" by (simp add: uploadsStarted_iff)
  from started show "addFilesAtom files s = s" by (simp add: addFilesAtom_def)
  from started show "prepareUploads_add files s = s" by (simp add: prepareUploads_add_def)
next
  assume h: "\<not> (\<exists>u \<in> snd ` set s. item_status u = reserving \<or> item_status u = uploading
                        \<or> item_status u = success)
        \<and> distinct (map snd files) \<and> snd ` set files \<inter> fst ` set s = {}"
  then have idle: "\<not> uploadsStarted s" by (simp add: uploadsStarted_iff)
  from h have fresh: "distinct (map snd files)" "snd ` set files \<inter> fst ` set s = {}"
    by simp_all
  show appended:
    "addFilesAtom files s = s @ map (\<lambda>(file, ident). (ident, queued_record file ident)) files"
    using idle fold_update_fresh [OF fresh, of queued_record]
    by (simp add: addFilesAtom_def)
  then show "length (addFilesAtom files s) = length s + length files" by simp
  show "\<forall>(file, ident) \<in> set files.
                \<exists>u. map_of (addFilesAtom files s) ident = Some u \<and> item_status u = queued
                    \<and> item_id u = ident \<and> item_file u = file \<and> item_progress u = 0"
  proof (clarify)
    fix fl ident
    assume mem: "(fl, ident) \<in> set files"
    from fresh mem have notin: "map_of s ident = None"
      by (force simp: map_of_eq_None_iff)
    have dist: "distinct (map fst (map (\<lambda>(file, ident). (ident, queued_record file ident)) files))"
      using fresh(1) by (simp add: case_prod_unfold comp_def)
    from mem have "(ident, queued_record fl ident)
                     \<in> set (map (\<lambda>(file, ident). (ident, queued_record file ident)) files)"
      by force
    with dist have "map_of (map (\<lambda>(file, ident). (ident, queued_record file ident)) files) ident
                      = Some (queued_record fl ident)"
      by (rule map_of_is_SomeI)
    with notin appended have "map_of (addFilesAtom files s) ident = Some (queued_record fl ident)"
      by (simp add: map_add_def)
    then show "\<exists>u. map_of (addFilesAtom files s) ident = Some u \<and> item_status u = queued
                    \<and> item_id u = ident \<and> item_file u = fl \<and> item_progress u = 0"
      by (simp add: queued_record_def)
  qed
qed

theorem addFiles_frozen_batch_witness:
  "addFilesAtom [(file_a, ''n'')] batch = batch
   \<and> prepareUploads_add [(file_a, ''n'')] batch = batch
   \<and> length (addFilesAtom [(file_a, ''n'')] waiting) = 2
   \<and> map fst (addFilesAtom [(file_a, ''n'')] waiting) = [''q'', ''n'']
   \<and> map (item_status \<circ> snd) (addFilesAtom [(file_a, ''n'')] waiting) = [queued, queued]"
proof -
  have started: "\<exists>u \<in> snd ` set batch. item_status u = reserving \<or> item_status u = uploading
                        \<or> item_status u = success"
    by (simp add: batch_def plain_record_def)
  have fresh: "\<not> (\<exists>u \<in> snd ` set waiting. item_status u = reserving \<or> item_status u = uploading
                        \<or> item_status u = success)
        \<and> distinct (map snd [(file_a, ''n'')])
        \<and> snd ` set [(file_a, ''n'')] \<inter> fst ` set waiting = {}"
    by (simp add: waiting_def plain_record_def)
  note frozen = addFiles_frozen_batch [THEN conjunct1, THEN mp, OF started]
  note added = addFiles_frozen_batch [THEN conjunct2, THEN mp, OF fresh, THEN conjunct1]
  from frozen added show ?thesis
    by (simp add: waiting_def plain_record_def queued_record_def)
qed

lemma update_at:
  "k \<notin> fst ` set pre \<Longrightarrow> AList.update k v (pre @ (k, w) # post) = pre @ (k, v) # post"
  by (induction pre) auto

lemma cancel_fold_uploads:
  "res_uploads (fold cancel_step us r) =
     fold (\<lambda>u sa. if item_status u = uploading \<or> item_status u = reserving
                   then AList.update (item_id u) (canceled_copy u) sa else sa) us (res_uploads r)"
  by (induction us arbitrary: r) (simp_all add: cancel_step_def)

lemma cancel_fold_aborted:
  "res_aborted (fold cancel_step us r) =
     res_aborted r @ concat (map (\<lambda>u. if item_status u = uploading \<or> item_status u = reserving
                                       then abort_of u else []) us)"
  by (induction us arbitrary: r) (simp_all add: cancel_step_def)

lemma cancel_fold_map:
  assumes "map fst pre' = map fst pre"
    and "distinct (map fst (pre @ rest))"
    and "\<forall>(k, u) \<in> set rest. item_id u = k"
  shows "fold (\<lambda>u sa. if item_status u = uploading \<or> item_status u = reserving
                 then AList.update (item_id u) (canceled_copy u) sa else sa)
     (map snd rest) (pre' @ rest)
   = pre' @ map (\<lambda>(k, u). (k, if item_status u = uploading \<or> item_status u = reserving
                                then canceled_copy u else u)) rest"
  using assms
proof (induction rest arbitrary: pre pre')
  case Nil
  show ?case by simp
next
  case (Cons x rest)
  obtain k u where x: "x = (k, u)" by (cases x)
  from Cons.prems x have idk: "item_id u = k" by simp
  let ?u' = "if item_status u = uploading \<or> item_status u = reserving then canceled_copy u else u"
  from Cons.prems x have "k \<notin> fst ` set pre" by auto
  moreover have "fst ` set pre' = fst ` set pre"
  proof -
    have "fst ` set pre' = set (map fst pre')" by simp
    also have "\<dots> = set (map fst pre)" by (simp only: Cons.prems(1))
    finally show ?thesis by simp
  qed
  ultimately have fresh: "k \<notin> fst ` set pre'" by simp
  have step: "(if item_status u = uploading \<or> item_status u = reserving
               then AList.update (item_id u) (canceled_copy u) (pre' @ (k, u) # rest)
               else pre' @ (k, u) # rest) = (pre' @ [(k, ?u')]) @ rest"
    using update_at [OF fresh, of "canceled_copy u" u rest] by (simp add: idk)
  have keys: "map fst (pre' @ [(k, ?u')]) = map fst (pre @ [(k, u)])"
    using Cons.prems(1) by simp
  have dist: "distinct (map fst ((pre @ [(k, u)]) @ rest))"
    using Cons.prems(2) x by simp
  have ids: "\<forall>(k, u) \<in> set rest. item_id u = k"
    using Cons.prems(3) by simp
  from Cons.IH [OF keys dist ids] step show ?case
    by (simp add: x)
qed

text \<open>
  The loop of \<open>cancelAllActiveUploadsAtom\<close> on any registry value whose keys are
  unique and equal to the records' ids: exactly the records that are reserving or
  uploading are replaced by canceled copies without controller, the others, the keys
  and the order stay, and the controllers aborted are the ones those records hold.
\<close>

lemma cancelAll_frame:
  assumes "distinct (map fst s)" and "\<forall>(k, u) \<in> set s. item_id u = k"
  shows "res_uploads (cancelAllActiveUploadsAtom s ser) =
           map (\<lambda>(k, u). (k, if item_status u = reserving \<or> item_status u = uploading
                              then u\<lparr>item_status := canceled, item_controller := None,
                                     item_stateMachine :=
                                       map_option (fire CANCEL None) (item_stateMachine u)\<rparr>
                              else u)) s
       \<and> res_aborted (cancelAllActiveUploadsAtom s ser) =
           concat (map (\<lambda>(k, u). if item_status u = reserving \<or> item_status u = uploading
                                  then (case item_controller u of Some c \<Rightarrow> [c] | None \<Rightarrow> [])
                                  else []) s)"
proof -
  have same: "(\<lambda>(k, u). (k, if item_status u = uploading \<or> item_status u = reserving
                                then canceled_copy u else u))
            = (\<lambda>(k, u). (k, if item_status u = reserving \<or> item_status u = uploading
                              then u\<lparr>item_status := canceled, item_controller := None,
                                     item_stateMachine :=
                                       map_option (fire CANCEL None) (item_stateMachine u)\<rparr>
                              else u))"
    by (simp add: canceled_copy_def disj_commute cong: if_cong)
  have "res_uploads (cancelAllActiveUploadsAtom s ser) =
          map (\<lambda>(k, u). (k, if item_status u = uploading \<or> item_status u = reserving
                                then canceled_copy u else u)) s"
    using cancel_fold_map [of "[]" "[]" s] assms
    by (simp add: cancelAllActiveUploadsAtom_def cancel_fold_uploads)
  moreover have "res_aborted (cancelAllActiveUploadsAtom s ser) =
           concat (map (\<lambda>(k, u). if item_status u = reserving \<or> item_status u = uploading
                                  then (case item_controller u of Some c \<Rightarrow> [c] | None \<Rightarrow> [])
                                  else []) s)"
    by (simp add: cancelAllActiveUploadsAtom_def cancel_fold_aborted abort_of_def
        case_prod_unfold comp_def disj_commute cong: if_cong)
  ultimately show ?thesis by (simp add: same)
qed


text \<open>
  On the store, the persisted object after \<open>cancelAllActiveUploadsAtom\<close> is the one
  before with exactly the entries that read as reserving or uploading marked
  canceled; and since no record that is read holds a controller, nothing is aborted.
\<close>

lemma cancel_fold_serializable:
  "res_serializable (fold cancel_step us r) =
     fold (\<lambda>u sa. if item_status u = uploading \<or> item_status u = reserving
                   then mark_canceled (item_id u) sa else sa) us (res_serializable r)"
  by (induction us arbitrary: r) (simp_all add: cancel_step_def)

lemma cancel_fold_changed:
  "res_changed (fold cancel_step us r) \<longleftrightarrow>
     res_changed r \<or> (\<exists>u \<in> set us. item_status u = uploading \<or> item_status u = reserving)"
  by (induction us arbitrary: r) (auto simp: cancel_step_def)

lemma mark_canceled_at:
  "k \<notin> fst ` set pre \<Longrightarrow>
   mark_canceled k (pre @ (k, e) # post) = pre @ (k, e\<lparr>ser_status := canceled\<rparr>) # post"
proof -
  assume fresh: "k \<notin> fst ` set pre"
  then have "map_of pre k = None" by (simp add: map_of_eq_None_iff)
  then have "map_of (pre @ (k, e) # post) k = Some e" by (simp add: map_add_def)
  then show ?thesis by (simp add: mark_canceled_def update_at [OF fresh])
qed

lemma mark_fold_map:
  assumes "map fst pre' = map fst pre"
    and "distinct (map fst (pre @ rest))"
    and "\<forall>(k, e) \<in> set rest. item_id (R k e) = k"
  shows "fold (\<lambda>u sa. if item_status u = uploading \<or> item_status u = reserving
                       then mark_canceled (item_id u) sa else sa)
           (map (\<lambda>(k, e). R k e) rest) (pre' @ rest)
         = pre' @ map (\<lambda>(k, e). (k, if item_status (R k e) = uploading
                                        \<or> item_status (R k e) = reserving
                                     then e\<lparr>ser_status := canceled\<rparr> else e)) rest"
  using assms
proof (induction rest arbitrary: pre pre')
  case Nil
  show ?case by simp
next
  case (Cons x rest)
  obtain k e where x: "x = (k, e)" by (cases x)
  from Cons.prems x have idk: "item_id (R k e) = k" by simp
  let ?e' = "if item_status (R k e) = uploading \<or> item_status (R k e) = reserving
             then e\<lparr>ser_status := canceled\<rparr> else e"
  from Cons.prems x have "k \<notin> fst ` set pre" by auto
  moreover have "fst ` set pre' = fst ` set pre"
  proof -
    have "fst ` set pre' = set (map fst pre')" by simp
    also have "\<dots> = set (map fst pre)" by (simp only: Cons.prems(1))
    finally show ?thesis by simp
  qed
  ultimately have fresh: "k \<notin> fst ` set pre'" by simp
  have step: "(if item_status (R k e) = uploading \<or> item_status (R k e) = reserving
               then mark_canceled (item_id (R k e)) (pre' @ (k, e) # rest)
               else pre' @ (k, e) # rest) = (pre' @ [(k, ?e')]) @ rest"
    using mark_canceled_at [OF fresh, of e rest] by (simp add: idk)
  have keys: "map fst (pre' @ [(k, ?e')]) = map fst (pre @ [(k, e)])"
    using Cons.prems(1) by simp
  have dist: "distinct (map fst ((pre @ [(k, e)]) @ rest))"
    using Cons.prems(2) x by simp
  have ids: "\<forall>(k, e) \<in> set rest. item_id (R k e) = k"
    using Cons.prems(3) by simp
  from Cons.IH [OF keys dist ids] step show ?case
    by (simp add: x)
qed

lemma rehydrate_id: "item_id (rehydrate_item c k e) = ser_id e"
  by (simp add: rehydrate_item_def Let_def split: option.splits)

lemma cancelAll_on_store_persisted:
  assumes "distinct (map fst (serializable st))"
    and "\<forall>(k, e) \<in> set (serializable st). ser_id e = k"
  shows "serializable (fst (cancelAllActiveUploads_on_store st)) =
           map (\<lambda>(k, e).
                  (k, if item_status (rehydrate_item (cache_get (fileCache st) k) k e) = uploading
                       \<or> item_status (rehydrate_item (cache_get (fileCache st) k) k e) = reserving
                      then e\<lparr>ser_status := canceled\<rparr> else e))
             (serializable st)"
proof -
  let ?R = "\<lambda>k e. rehydrate_item (cache_get (fileCache st) k) k e"
  let ?F = "\<lambda>(k, e). (k, if item_status (?R k e) = uploading \<or> item_status (?R k e) = reserving
                          then e\<lparr>ser_status := canceled\<rparr> else e)"
  let ?r = "cancelAllActiveUploadsAtom (uploadsAtom_read st) (serializable st)"
  have read_values: "map snd (uploadsAtom_read st) = map (\<lambda>(k, e). ?R k e) (serializable st)"
    by (simp add: uploadsAtom_read_def case_prod_unfold comp_def)
  have ids: "\<forall>(k, e) \<in> set (serializable st). item_id (?R k e) = k"
    using assms(2) by (auto simp: rehydrate_id)
  have marked: "res_serializable ?r = map ?F (serializable st)"
    using mark_fold_map [of "[]" "[]" "serializable st" ?R] assms(1) ids
    by (simp add: cancelAllActiveUploadsAtom_def cancel_fold_serializable read_values)
  show ?thesis
  proof (cases "res_changed ?r")
    case True
    then show ?thesis
      by (simp add: cancelAllActiveUploads_on_store_def Let_def marked)
  next
    case False
    then have none: "\<forall>u \<in> set (map snd (uploadsAtom_read st)).
                       \<not> (item_status u = uploading \<or> item_status u = reserving)"
      by (simp add: cancelAllActiveUploadsAtom_def cancel_fold_changed)
    have "map ?F (serializable st) = serializable st"
    proof -
      have "\<forall>x \<in> set (serializable st). ?F x = x"
        using none unfolding read_values by (auto simp: case_prod_unfold)
      then show ?thesis by (simp add: map_idI)
    qed
    with False show ?thesis
      by (simp add: cancelAllActiveUploads_on_store_def Let_def)
  qed
qed

lemma read_has_no_controller:
  "(k, u) \<in> set (uploadsAtom_read st) \<Longrightarrow> item_controller u = None"
  by (auto simp: uploadsAtom_read_def rehydrate_item_def Let_def split: option.splits)

lemma cancel_fold_aborted_none:
  "\<forall>u \<in> set us. item_controller u = None \<Longrightarrow>
   res_aborted (fold cancel_step us r) = res_aborted r"
  by (induction us arbitrary: r) (simp_all add: cancel_step_def abort_of_def)

lemma cancelAll_on_store_aborts_nothing:
  "snd (cancelAllActiveUploads_on_store st) = []"
proof -
  have "\<forall>u \<in> set (map snd (uploadsAtom_read st)). item_controller u = None"
    using read_has_no_controller by fastforce
  then show ?thesis
    by (simp add: cancelAllActiveUploads_on_store_def cancelAllActiveUploadsAtom_def Let_def
        cancel_fold_aborted_none)
qed

lemma in_flight_serializable:
  "serializable store_in_flight =
     [(''a'', persisted_queued\<lparr>ser_status := uploading, ser_remoteId := Some ''r1'',
                  ser_uploadUrl := Some ''https://example.com/upload'',
                  ser_method := Some PUT\<rparr>)]"
  "fileCache store_in_flight ''a'' = Some file_a"
  by (simp_all add: store_in_flight_def performSimpleUpload_begin_def updateUpload_on_store_def
      uploadsAtom_read_def uploadsAtom_write_def store_one_ready_def cache_get_def cache_set_def
      rehydrate_item_def updateUploadAtom_def merge_item_def override_def no_updates_def
      project_def persisted_queued_def file_a_def)

lemma in_flight_read:
  "map (item_status \<circ> snd) (uploadsAtom_read store_in_flight) = [uploading]"
  "map (item_controller \<circ> snd) (uploadsAtom_read store_in_flight) = [None]"
  by (simp_all add: uploadsAtom_read_def in_flight_serializable cache_get_def rehydrate_item_def)

lemma in_flight_canceled:
  "map (item_status \<circ> snd)
     (uploadsAtom_read (fst (cancelAllActiveUploads_on_store store_in_flight))) = [canceled]"
  by (simp add: cancelAllActiveUploads_on_store_def cancelAllActiveUploadsAtom_def Let_def
      uploadsAtom_read_def uploadsAtom_write_def in_flight_serializable cache_get_def cache_set_def
      rehydrate_item_def cancel_step_def canceled_copy_def mark_canceled_def abort_of_def
      persisted_queued_def)

text \<open>
  C8 at a store with one transfer in flight. A ready transfer begins to upload and
  hands controller 1 to the registry; read back, the record is uploading and holds no
  controller, because the persisted projection has no field for one. After
  \<open>cancelAllActiveUploadsAtom\<close> the record reads \<open>canceled\<close> and is persisted so, but
  nothing was aborted: controller 1 is still live and the transfer goes on.
\<close>

theorem cancelAll_leaves_token_alive:
  "map (item_status \<circ> snd) (uploadsAtom_read store_one_ready) = [ready]
   \<and> store_in_flight = performSimpleUpload_begin 1 ''a'' store_one_ready
   \<and> map (item_status \<circ> snd) (uploadsAtom_read store_in_flight) = [uploading]
   \<and> map (item_controller \<circ> snd) (uploadsAtom_read store_in_flight) = [None]
   \<and> map (item_status \<circ> snd)
        (uploadsAtom_read (fst (cancelAllActiveUploads_on_store store_in_flight))) = [canceled]
   \<and> map (ser_status \<circ> snd)
        (serializable (fst (cancelAllActiveUploads_on_store store_in_flight))) = [canceled]
   \<and> snd (cancelAllActiveUploads_on_store store_in_flight) = []
   \<and> 1 \<notin> set (snd (cancelAllActiveUploads_on_store store_in_flight))"
proof -
  have ready: "map (item_status \<circ> snd) (uploadsAtom_read store_one_ready) = [ready]"
    by (simp add: uploadsAtom_read_def store_one_ready_def cache_get_def cache_set_def
        rehydrate_item_def persisted_queued_def)
  have persisted: "map (ser_status \<circ> snd)
        (serializable (fst (cancelAllActiveUploads_on_store store_in_flight))) = [canceled]"
    by (simp add: cancelAllActiveUploads_on_store_def cancelAllActiveUploadsAtom_def Let_def
      uploadsAtom_read_def uploadsAtom_write_def in_flight_serializable cache_get_def
      rehydrate_item_def cancel_step_def canceled_copy_def mark_canceled_def abort_of_def
      persisted_queued_def)
  from ready persisted in_flight_read in_flight_canceled
    cancelAll_on_store_aborts_nothing [of store_in_flight]
  show ?thesis by (simp add: store_in_flight_def)
qed



lemma lost_record_fields:
  "item_status lost_record = error"
  "file_size (item_file lost_record) = 0"
  "item_fileSize lost_record = 1000"
  "item_error lost_record = Some lost_message"
  by (simp_all add: lost_record_def rehydrate_item_def persisted_queued_def Let_def)

lemma lost_record_machine:
  "\<exists>m. item_stateMachine lost_record = Some m \<and> sm_state m = S_error
       \<and> ctx_fileSize (sm_context m) = 0 \<and> file_size (ctx_file (sm_context m)) = 0"
  by (simp add: lost_record_def rehydrate_item_def persisted_queued_def Let_def fire_def send_def
      getNextState_def canTransition_def createUploadStateMachine_def merge_context_def
      override_def no_patch_def)

lemma lost_record_not_detected: "isPlaceholderFile lost_record = False"
  using lost_record_machine by (auto simp: isPlaceholderFile_def isPlaceholderState_def)

lemma lost_message_mentions: "mentions_page_refresh (Some lost_message)"
  by (simp add: mentions_page_refresh_def lost_message_def)

text \<open>
  C7 at the record a restart produces. The record rebuilt for a persisted transfer
  whose file is gone has status \<open>error\<close>, a live file of size 0, a recorded size of
  1000 and the restart-loss message, so it is a placeholder in the sense of the
  claim. Its state machine was created from the zero-byte file, so the context's
  \<open>fileSize\<close> is 0, \<open>isPlaceholderFile\<close> answers \<open>false\<close>, and \<open>retryUploadAtom\<close>
  resets the record to \<open>ready\<close> and goes on to transmit instead of refusing.
\<close>

theorem retry_rehydrated_placeholder:
  "uploadsAtom_read \<lparr>serializable = [(''a'', persisted_queued)], fileCache = Map.empty\<rparr>
     = [(''a'', lost_record)]
   \<and> item_status lost_record = error
   \<and> file_size (item_file lost_record) = 0
   \<and> 0 < item_fileSize lost_record
   \<and> mentions_page_refresh (item_error lost_record)
   \<and> isPlaceholderFile lost_record = False
   \<and> retryUploadAtom ''a'' [(''a'', lost_record)] =
       RetryTransmit
         [(''a'', lost_record\<lparr>item_status := ready, item_progress := 0, item_error := None,
                    item_controller := None\<rparr>)]
         lost_record"
proof -
  have merged: "merge_item lost_record
          (no_updates\<lparr>ip_status := Some ready, ip_progress := Some 0,
             ip_error := Some None, ip_controller := Some None\<rparr>)
        = lost_record\<lparr>item_status := ready, item_progress := 0, item_error := None,
                    item_controller := None\<rparr>"
    by (simp add: merge_item_def no_updates_def override_def)
  have "retryUploadAtom ''a'' [(''a'', lost_record)] =
       RetryTransmit
         [(''a'', lost_record\<lparr>item_status := ready, item_progress := 0, item_error := None,
                    item_controller := None\<rparr>)]
         lost_record"
    by (simp add: retryUploadAtom_def lost_record_fields lost_record_not_detected
        updateUploadAtom_def merged)
  moreover have "uploadsAtom_read
          \<lparr>serializable = [(''a'', persisted_queued)], fileCache = Map.empty\<rparr>
        = [(''a'', lost_record)]"
    by (simp add: uploadsAtom_read_def cache_get_def lost_record_def)
  ultimately show ?thesis
    by (simp add: lost_record_fields lost_record_not_detected lost_message_mentions)
qed

lemma store_read:
  "map (item_status \<circ> snd) (uploadsAtom_read store_one_success) = [success]"
  by (simp add: uploadsAtom_read_def store_one_success_def cache_get_def cache_set_def
      rehydrate_item_def persisted_queued_def)

lemma store_keep: "keep_uploading (uploadsAtom_read store_one_success) = []"
  by (simp add: keep_uploading_def uploadsAtom_read_def store_one_success_def cache_get_def
      cache_set_def rehydrate_item_def persisted_queued_def)

text \<open>
  C9 at a store with one successful transfer whose file is cached: after
  \<open>clearRemovableUploadsAtom\<close> the record is gone from the registry and from the
  persisted object, and the cache still holds its file.
\<close>

theorem clearRemovable_keeps_payload:
  "cache_get (fileCache store_one_success) ''a'' = Some file_a
   \<and> map (item_status \<circ> snd) (uploadsAtom_read store_one_success) = [success]
   \<and> uploadsAtom_read (clearRemovableUploadsAtom store_one_success) = []
   \<and> serializable (clearRemovableUploadsAtom store_one_success) = []
   \<and> cache_get (fileCache (clearRemovableUploadsAtom store_one_success)) ''a'' = Some file_a
   \<and> cache_has (fileCache (clearRemovableUploadsAtom store_one_success)) ''a''"
proof -
  have after: "clearRemovableUploadsAtom store_one_success
                 = \<lparr>serializable = [], fileCache = fileCache store_one_success\<rparr>"
    by (simp add: clearRemovableUploadsAtom_def store_keep uploadsAtom_write_def)
  have cached: "cache_get (fileCache store_one_success) ''a'' = Some file_a"
    by (simp add: store_one_success_def cache_get_def cache_set_def)
  from after cached store_read show ?thesis
    by (simp add: uploadsAtom_read_def cache_has_def cache_get_def)
qed

text \<open>What \<open>retryUploadAtom\<close> does on each side of its two tests.\<close>

lemma retry_guard:
  "retryUploadAtom ident uploads = RetryIgnored \<longleftrightarrow>
     (case map_of uploads ident of None \<Rightarrow> True | Some u \<Rightarrow> item_status u \<noteq> error)"
  by (simp add: retryUploadAtom_def split: option.splits)

lemma retry_refuses_detected_placeholder:
  assumes "map_of uploads ident = Some u" and "item_status u = error"
    and "isPlaceholderFile u"
  shows "\<exists>reg. retryUploadAtom ident uploads = RetryRefused reg
           \<and> map_option item_status (map_of reg ident) = Some error
           \<and> map_option item_error (map_of reg ident) = Some (Some cannot_retry_message)"
  using assms
  by (simp add: retryUploadAtom_def updateUploadAtom_def update_conv' merge_item_def
      no_updates_def override_def)

lemma retry_resets_other_errors:
  assumes "map_of uploads ident = Some u" and "item_status u = error"
    and "\<not> isPlaceholderFile u"
  shows "\<exists>reg r. retryUploadAtom ident uploads = RetryTransmit reg u
           \<and> map_of reg ident = Some r \<and> item_status r = ready \<and> item_progress r = 0
           \<and> item_error r = None \<and> item_controller r = None"
  using assms
  by (simp add: retryUploadAtom_def updateUploadAtom_def update_conv' merge_item_def
      no_updates_def override_def)

lemma cannot_retry_message_distinct:
  "cannot_retry_message \<noteq> lost_message" "cannot_retry_message \<noteq> interrupted_message"
  by (simp_all add: cannot_retry_message_def lost_message_def interrupted_message_def)

text \<open>
  Without a state machine the fallback test of \<open>isPlaceholderFile\<close> recognises the
  record by its sizes alone.
\<close>

lemma placeholder_fallback:
  "item_stateMachine u = None \<Longrightarrow>
   isPlaceholderFile u \<longleftrightarrow> file_size (item_file u) = 0 \<and> 0 < item_fileSize u"
  by (simp add: isPlaceholderFile_def)

text \<open>
  The retained part of \<open>clearRemovableUploadsAtom\<close>, and the cache: the setter only
  adds to it, so no key ever leaves the cache.
\<close>

lemma keep_uploading_acc:
  assumes "distinct (map fst rest)" and "\<forall>(k, u) \<in> set rest. item_id u = k"
    and "fst ` set acc \<inter> fst ` set rest = {}"
  shows "fold (\<lambda>upload next. if item_status upload = uploading
                               then AList.update (item_id upload) upload next else next)
           (map snd rest) acc
         = acc @ filter (\<lambda>(k, u). item_status u = uploading) rest"
  using assms
proof (induction rest arbitrary: acc)
  case Nil
  show ?case by simp
next
  case (Cons x rest)
  obtain k u where x: "x = (k, u)" by (cases x)
  from Cons.prems x have idk: "item_id u = k" by simp
  from Cons.prems x have fresh: "k \<notin> fst ` set acc" by auto
  let ?acc = "if item_status u = uploading then acc @ [(k, u)] else acc"
  have d: "distinct (map fst rest)" using Cons.prems(1) by simp
  have i: "\<forall>(k, u) \<in> set rest. item_id u = k" using Cons.prems(2) by simp
  have f: "fst ` set ?acc \<inter> fst ` set rest = {}"
    using Cons.prems(1) Cons.prems(3) x by auto
  from Cons.IH [OF d i f] show ?case
    by (cases "item_status u = uploading") (simp_all add: x idk update_fresh [OF fresh])
qed

lemma keep_uploading_filter:
  "distinct (map fst s) \<Longrightarrow> \<forall>(k, u) \<in> set s. item_id u = k \<Longrightarrow>
   keep_uploading s = filter (\<lambda>(k, u). item_status u = uploading) s"
  using keep_uploading_acc [of s "[]"] by (simp add: keep_uploading_def)

lemma clearRemovable_never_evicts:
  "cache_has (fileCache st) k \<Longrightarrow> cache_has (fileCache (clearRemovableUploadsAtom st)) k"
proof -
  assume "cache_has (fileCache st) k"
  then have "k \<in> dom (fileCache st)" by (auto simp: cache_has_def)
  then have "k \<in> dom (fileCache (clearRemovableUploadsAtom st))"
    by (simp add: clearRemovableUploadsAtom_def uploadsAtom_write_def cache_fold_dom)
  then show ?thesis by (auto simp: cache_has_def)
qed

text \<open>The add step of \<open>prepareUploadsAtom\<close> when it is not refused.\<close>

lemma prepareUploads_add_appends:
  "\<not> uploadsStarted s \<Longrightarrow> distinct (map snd files) \<Longrightarrow>
   snd ` set files \<inter> fst ` set s = {} \<Longrightarrow>
   prepareUploads_add files s
     = s @ map (\<lambda>(file, ident). (ident, reserving_record file ident)) files"
  using fold_update_fresh [of files s reserving_record]
  by (cases files) (simp_all add: prepareUploads_add_def)

end
